theory Spec2Isabelle
  imports Main "HOL-Library.Monad_Syntax"
begin

section \<open>Text\<close>

text \<open>
  Python text is modelled as \<^typ>\<open>string\<close>: a list of 8-bit characters, read as the
  code points below 256. The helpers below are the parts of \<open>str\<close> the converter calls.
\<close>

text \<open>\<open>needle in haystack\<close> on two strings: does some suffix of the haystack start with
  the needle.\<close>

fun startswith :: "string \<Rightarrow> string \<Rightarrow> bool" where
  "startswith s [] = True"
| "startswith [] (p # ps) = False"
| "startswith (c # cs) (p # ps) = (c = p \<and> startswith cs ps)"

fun contains :: "string \<Rightarrow> string \<Rightarrow> bool" where
  "contains [] k = (k = [])"
| "contains (c # cs) k = (startswith (c # cs) k \<or> contains cs k)"

text \<open>\<open>str.isspace\<close> on the code points below 256; \<open>str.strip()\<close> and the
  whitespace class of the regular expressions use the same set.\<close>

definition is_space :: "char \<Rightarrow> bool" where
  "is_space c \<longleftrightarrow> of_char c \<in> {9, 10, 11, 12, 13, 28, 29, 30, 31, 32, 133, 160 :: nat}"

definition strip :: "string \<Rightarrow> string" where
  "strip s = rev (dropWhile is_space (rev (dropWhile is_space s)))"

definition newline :: char where
  "newline = CHR 0x0A"

fun split_newline :: "string \<Rightarrow> string list" where
  "split_newline [] = [[]]"
| "split_newline (c # cs) =
     (if c = newline then [] # split_newline cs
      else (case split_newline cs of [] \<Rightarrow> [[c]] | l # ls \<Rightarrow> (c # l) # ls))"

text \<open>\<open>str\<close> of an integer: decimal digits, a minus sign first when negative.\<close>

fun str_nat :: "nat \<Rightarrow> string" where
  "str_nat n = (if n < 10 then [''0123456789'' ! n] else str_nat (n div 10) @ [''0123456789'' ! (n mod 10)])"

declare str_nat.simps [simp del]

definition str_int :: "int \<Rightarrow> string" where
  "str_int i = (if i < 0 then CHR ''-'' # str_nat (nat (- i)) else str_nat (nat i))"

section \<open>Workflow documents and their emitter\<close>

text \<open>The nested value the generator builds: a Python \<open>dict\<close> is an association list in
  insertion order, a \<open>list\<close> a list, and the scalars are \<open>str\<close>, \<open>bool\<close> and \<open>int\<close>.\<close>

datatype doc =
    DMap "(string \<times> doc) list"
  | DSeq "doc list"
  | DStr string
  | DBool bool
  | DInt int

text \<open>The indentation at depth \<open>indent\<close>: two spaces per level.\<close>

definition ind :: "nat \<Rightarrow> string" where
  "ind n = concat (replicate n ''  '')"

text \<open>\<open>repr\<close> of the values above, which \<open>str\<close> of a list or a dict is made of. A string
  is quoted with single quotes unless it has one and no double quote; backslash, the quote
  and the characters \<open>str.isprintable\<close> rejects are escaped.\<close>

fun join :: "string \<Rightarrow> string list \<Rightarrow> string" where
  "join sep [] = []"
| "join sep [x] = x"
| "join sep (x # y # ys) = x @ sep @ join sep (y # ys)"

definition hex_digit :: "nat \<Rightarrow> char" where
  "hex_digit d = ''0123456789abcdef'' ! d"

definition repr_char :: "char \<Rightarrow> char \<Rightarrow> string" where
  "repr_char quote c =
     (let n = (of_char c :: nat) in
      if c = CHR 0x5C then [CHR 0x5C, CHR 0x5C]
      else if c = quote then [CHR 0x5C, quote]
      else if n = 9 then [CHR 0x5C, CHR ''t'']
      else if n = 10 then [CHR 0x5C, CHR ''n'']
      else if n = 13 then [CHR 0x5C, CHR ''r'']
      else if n < 32 \<or> (127 \<le> n \<and> n \<le> 160) \<or> n = 173
        then [CHR 0x5C, CHR ''x'', hex_digit (n div 16), hex_digit (n mod 16)]
      else [c])"

definition repr_str :: "string \<Rightarrow> string" where
  "repr_str s =
     (let quote = (if CHR 0x27 \<in> set s \<and> CHR 0x22 \<notin> set s then CHR 0x22 else CHR 0x27)
      in [quote] @ concat (map (repr_char quote) s) @ [quote])"

fun repr :: "doc \<Rightarrow> string"
  and repr_items :: "doc list \<Rightarrow> string list"
  and repr_pairs :: "(string \<times> doc) list \<Rightarrow> string list" where
  "repr (DMap kvs) = ''{'' @ join '', '' (repr_pairs kvs) @ ''}''"
| "repr (DSeq xs) = ''['' @ join '', '' (repr_items xs) @ '']''"
| "repr (DStr s) = repr_str s"
| "repr (DBool b) = (if b then ''True'' else ''False'')"
| "repr (DInt i) = str_int i"
| "repr_items [] = []"
| "repr_items (x # xs) = repr x # repr_items xs"
| "repr_pairs [] = []"
| "repr_pairs ((k, v) # kvs) = (repr_str k @ '': '' @ repr v) # repr_pairs kvs"

text \<open>\<open>str(value)\<close>, which an f-string applies to the value it formats.\<close>

definition py_str :: "doc \<Rightarrow> string" where
  "py_str d = (case d of DStr s \<Rightarrow> s | _ \<Rightarrow> repr d)"

text \<open>\<open>dict_to_yaml(data, indent)\<close>. \<open>yaml_entries\<close> is the loop over the items of a
  dict and \<open>yaml_items\<close> the inner loop over the elements of a list value. Data that is
  not a dict yields no line.\<close>

fun dict_to_yaml :: "doc \<Rightarrow> nat \<Rightarrow> string list"
  and yaml_entries :: "(string \<times> doc) list \<Rightarrow> nat \<Rightarrow> string list"
  and yaml_items :: "doc list \<Rightarrow> nat \<Rightarrow> string list" where
  "dict_to_yaml (DMap kvs) indent = yaml_entries kvs indent"
| "dict_to_yaml (DSeq xs) indent = []"
| "dict_to_yaml (DStr s) indent = []"
| "dict_to_yaml (DBool b) indent = []"
| "dict_to_yaml (DInt i) indent = []"
| "yaml_entries [] indent = []"
| "yaml_entries ((key, DMap m) # kvs) indent =
     (ind indent @ key @ '':'') # dict_to_yaml (DMap m) (indent + 1) @ yaml_entries kvs indent"
| "yaml_entries ((key, DSeq xs) # kvs) indent =
     (ind indent @ key @ '':'') # yaml_items xs indent @ yaml_entries kvs indent"
| "yaml_entries ((key, DBool b) # kvs) indent =
     (ind indent @ key @ '': '' @ (if b then ''true'' else ''false'')) # yaml_entries kvs indent"
| "yaml_entries ((key, DStr s) # kvs) indent =
     (if newline \<in> set s
      then (ind indent @ key @ '': |'')
           # map (\<lambda>line. ind indent @ ''  '' @ line) (split_newline s)
      else [ind indent @ key @ '': '' @ s])
     @ yaml_entries kvs indent"
| "yaml_entries ((key, DInt i) # kvs) indent =
     (ind indent @ key @ '': '' @ str_int i) # yaml_entries kvs indent"
| "yaml_items [] indent = []"
| "yaml_items (DMap m # xs) indent =
     (case dict_to_yaml (DMap m) (indent + 1) of
        [] \<Rightarrow> [ind indent @ ''- '']
      | first # others \<Rightarrow> (ind indent @ ''- '' @ strip first) # others)
     @ yaml_items xs indent"
| "yaml_items (DSeq ys # xs) indent = (ind indent @ ''- '' @ py_str (DSeq ys)) # yaml_items xs indent"
| "yaml_items (DStr s # xs) indent = (ind indent @ ''- '' @ py_str (DStr s)) # yaml_items xs indent"
| "yaml_items (DBool b # xs) indent = (ind indent @ ''- '' @ py_str (DBool b)) # yaml_items xs indent"
| "yaml_items (DInt i # xs) indent = (ind indent @ ''- '' @ py_str (DInt i)) # yaml_items xs indent"

text \<open>The column in which a rendered line starts.\<close>

definition leading_spaces :: "string \<Rightarrow> nat" where
  "leading_spaces l = length (takeWhile (\<lambda>c. c = CHR '' '') l)"

section \<open>Stage classifier\<close>

datatype stage_type = Build | Test | Deliver | Security

definition build_keywords :: "string list" where
  "build_keywords = [''build'', ''compile'', ''package'']"

definition test_keywords :: "string list" where
  "test_keywords = [''test'', ''unit'', ''integration'']"

definition deploy_keywords :: "string list" where
  "deploy_keywords = [''deploy'', ''deliver'', ''publish'', ''release'']"

definition security_keywords :: "string list" where
  "security_keywords = [''security'', ''scan'', ''vulnerability'', ''audit'']"

text \<open>\<open>_classify_stage\<close>: the caller passes the lowercased stage name.\<close>

definition classify_stage :: "string \<Rightarrow> stage_type" where
  "classify_stage stage_name =
     (if list_ex (\<lambda>keyword. contains stage_name keyword) build_keywords then Build
      else if list_ex (\<lambda>keyword. contains stage_name keyword) test_keywords then Test
      else if list_ex (\<lambda>keyword. contains stage_name keyword) deploy_keywords then Deliver
      else if list_ex (\<lambda>keyword. contains stage_name keyword) security_keywords then Security
      else Build)"

section \<open>Pipeline model\<close>

datatype project_type = Generic | Maven | Gradle | Node

record stage_info =
  name :: string
  type :: stage_type
  commands :: "string list"

record pipeline_info =
  stages :: "stage_info list"
  tools :: "string list"
  triggers :: "string list"
  project_type :: project_type
  working_directory :: "string option"

text \<open>A path is the list of its components; the empty list is the current directory.\<close>

type_synonym path = "string list"

text \<open>The fields of a converter instance.\<close>

record converter =
  input_path :: path
  output_path :: path
  java_versions :: "string list"
  default_runner :: string

section \<open>Exceptions and dictionaries\<close>

datatype error =
    IndexError | ValueError | OSError
  | FileExistsError | FileNotFoundError | NotADirectoryError | IsADirectoryError | ShutilError

definition try_bind :: "error + 'a \<Rightarrow> ('a \<Rightarrow> error + 'b) \<Rightarrow> error + 'b" where
  "try_bind m f = (case m of Inl e \<Rightarrow> Inl e | Inr x \<Rightarrow> f x)"

text \<open>\<open>xs[-1]\<close>: the last element, \<open>IndexError\<close> on the empty list.\<close>

definition py_last :: "'a list \<Rightarrow> error + 'a" where
  "py_last xs = (if xs = [] then Inl IndexError else Inr (last xs))"

type_synonym pydict = "(string \<times> doc) list"

text \<open>\<open>d[key] = value\<close>: an existing key keeps its place, a new key goes last.\<close>

fun dict_set :: "pydict \<Rightarrow> string \<Rightarrow> doc \<Rightarrow> pydict" where
  "dict_set [] key v = [(key, v)]"
| "dict_set ((k, w) # kvs) key v =
     (if k = key then (k, v) # kvs else (k, w) # dict_set kvs key v)"

text \<open>\<open>d.update(other)\<close>\<close>

definition dict_update :: "pydict \<Rightarrow> pydict \<Rightarrow> pydict" where
  "dict_update d other = fold (\<lambda>(k, v) acc. dict_set acc k v) other d"

text \<open>A string in single quotes, as the generated conditions embed it.\<close>

definition quoted :: "string \<Rightarrow> string" where
  "quoted s = [CHR 0x27] @ s @ [CHR 0x27]"

section \<open>Pipeline text parser\<close>

text \<open>\<open>str.lower()\<close> on the code points below 256. Under \<open>re.IGNORECASE\<close> a literal
  character of a pattern matches a character of the text when both have the same lower
  case.\<close>

definition lower_char :: "char \<Rightarrow> char" where
  "lower_char c =
     (let n = (of_char c :: nat) in
      if (65 \<le> n \<and> n \<le> 90) \<or> (192 \<le> n \<and> n \<le> 222 \<and> n \<noteq> 215) then char_of (n + 32) else c)"

definition lower :: "string \<Rightarrow> string" where
  "lower s = map lower_char s"

text \<open>
  The three regular expressions of the parser, as matchers that read a pattern at the start
  of a text and return what follows the match. In each pattern a repetition is followed by
  a character outside the repeated class, so a match at a given position is unique and
  greedy repetition takes the whole run.
\<close>

fun match_literal_ci :: "string \<Rightarrow> string \<Rightarrow> string option" where
  "match_literal_ci [] s = Some s"
| "match_literal_ci (p # ps) [] = None"
| "match_literal_ci (p # ps) (c # cs) =
     (if lower_char c = lower_char p then match_literal_ci ps cs else None)"

definition skip_spaces :: "string \<Rightarrow> string" where
  "skip_spaces s = dropWhile is_space s"

definition is_quote :: "char \<Rightarrow> bool" where
  "is_quote c \<longleftrightarrow> c = CHR 0x27 \<or> c = CHR 0x22"

fun expect :: "(char \<Rightarrow> bool) \<Rightarrow> string \<Rightarrow> string option" where
  "expect P [] = None"
| "expect P (c # cs) = (if P c then Some cs else None)"

text \<open>A quoted string with at least one character and no quote inside: the group and the
  text after the closing quote.\<close>

definition quoted_group :: "string \<Rightarrow> (string \<times> string) option" where
  "quoted_group s =
     do {
       s1 \<leftarrow> expect is_quote s;
       let group = takeWhile (\<lambda>c. \<not> is_quote c) s1;
       s2 \<leftarrow> expect is_quote (dropWhile (\<lambda>c. \<not> is_quote c) s1);
       if group = [] then None else Some (group, s2)
     }"

text \<open>The stage declaration pattern, read case-insensitively: the word stage, an opening
  parenthesis, a quoted name, a closing parenthesis, with optional white space between.\<close>

definition match_stage :: "string \<Rightarrow> (string \<times> string) option" where
  "match_stage s =
     do {
       s1 \<leftarrow> match_literal_ci ''stage'' s;
       s2 \<leftarrow> expect (\<lambda>c. c = CHR ''('') (skip_spaces s1);
       (stage, s3) \<leftarrow> quoted_group (skip_spaces s2);
       s4 \<leftarrow> expect (\<lambda>c. c = CHR '')'') (skip_spaces s3);
       Some (stage, s4)
     }"

lemma expect_shorter: "expect P s = Some r \<Longrightarrow> length r < length s"
  by (cases s) (auto split: if_splits)

lemma match_literal_ci_length: "match_literal_ci p s = Some r \<Longrightarrow> length r \<le> length s"
  by (induction p s rule: match_literal_ci.induct) (auto split: if_splits)

lemma skip_spaces_length: "length (skip_spaces s) \<le> length s"
  unfolding skip_spaces_def by (rule length_dropWhile_le)

lemma quoted_group_shorter: "quoted_group s = Some (g, r) \<Longrightarrow> length r < length s"
proof -
  assume a: "quoted_group s = Some (g, r)"
  then obtain s1 where s1: "expect is_quote s = Some s1"
    and r: "expect is_quote (dropWhile (\<lambda>c. \<not> is_quote c) s1) = Some r"
    by (auto simp: quoted_group_def Let_def split: bind_splits if_splits)
  have "length r < length (dropWhile (\<lambda>c. \<not> is_quote c) s1)" using r by (rule expect_shorter)
  also have "\<dots> \<le> length s1" by (rule length_dropWhile_le)
  also have "\<dots> < length s" using s1 by (rule expect_shorter)
  finally show ?thesis .
qed

lemma match_stage_shorter: "match_stage s = Some (stage, r) \<Longrightarrow> length r < length s"
proof -
  assume "match_stage s = Some (stage, r)"
  then obtain s1 s2 s3 where a: "match_literal_ci ''stage'' s = Some s1"
    "expect (\<lambda>c. c = CHR ''('') (skip_spaces s1) = Some s2"
    "quoted_group (skip_spaces s2) = Some (stage, s3)"
    "expect (\<lambda>c. c = CHR '')'') (skip_spaces s3) = Some r"
    by (auto simp: match_stage_def split: bind_splits)
  have "length r < length (skip_spaces s3)" using a(4) by (rule expect_shorter)
  also have "\<dots> \<le> length s3" by (rule skip_spaces_length)
  also have "\<dots> \<le> length (skip_spaces s2)" using quoted_group_shorter [OF a(3)] by simp
  also have "\<dots> \<le> length s2" by (rule skip_spaces_length)
  also have "\<dots> \<le> length (skip_spaces s1)" using expect_shorter [OF a(2)] by simp
  also have "\<dots> \<le> length s1" by (rule skip_spaces_length)
  also have "\<dots> \<le> length s" using a(1) by (rule match_literal_ci_length)
  finally show ?thesis .
qed

text \<open>\<open>re.findall\<close> with the stage declaration pattern: the names of the matches found from
  left to right, each search starting where the previous match ended.\<close>

function findall_stage :: "string \<Rightarrow> string list" where
  "findall_stage s =
     (case match_stage s of
        Some (stage, rest) \<Rightarrow> stage # findall_stage rest
      | None \<Rightarrow> (case s of [] \<Rightarrow> [] | c # cs \<Rightarrow> findall_stage cs))"
  by pat_completeness auto

termination findall_stage
  by (relation "measure length") (auto simp: match_stage_shorter)

declare findall_stage.simps [simp del]

text \<open>The shell step pattern, case-sensitive: the letters sh, white space, a quoted
  command.\<close>

definition match_sh :: "string \<Rightarrow> (string \<times> string) option" where
  "match_sh s =
     (if startswith s ''sh'' then
        do {
          s1 \<leftarrow> expect is_space (drop 2 s);
          quoted_group (skip_spaces s1)
        }
      else None)"

lemma match_sh_shorter: "match_sh s = Some (command, r) \<Longrightarrow> length r < length s"
proof -
  assume "match_sh s = Some (command, r)"
  then obtain s1 where a: "expect is_space (drop 2 s) = Some s1"
    "quoted_group (skip_spaces s1) = Some (command, r)"
    by (auto simp: match_sh_def split: bind_splits if_splits)
  have "length r < length (skip_spaces s1)" using a(2) by (rule quoted_group_shorter)
  also have "\<dots> \<le> length s1" by (rule skip_spaces_length)
  also have "\<dots> \<le> length (drop 2 s)" using expect_shorter [OF a(1)] by simp
  also have "\<dots> \<le> length s" by simp
  finally show ?thesis .
qed

function findall_sh :: "string \<Rightarrow> string list" where
  "findall_sh s =
     (case match_sh s of
        Some (command, rest) \<Rightarrow> command # findall_sh rest
      | None \<Rightarrow> (case s of [] \<Rightarrow> [] | c # cs \<Rightarrow> findall_sh cs))"
  by pat_completeness auto

termination findall_sh
  by (relation "measure length") (auto simp: match_sh_shorter)

declare findall_sh.simps [simp del]

text \<open>
  The pattern of \<open>_extract_stage_commands\<close>, read case-insensitively with the dot matching
  every character: the declaration of the given (escaped, hence literal) stage name, then
  as few characters as possible, then two closing braces with optional white space
  between. \<open>match_stage_named\<close> reads the declaration, \<open>find_close\<close> the shortest rest, and
  \<open>match_stage_block\<close> returns the matched text. \<open>search_stage_block\<close> is \<open>re.search\<close>:
  the match at the leftmost position that has one.
\<close>

definition match_stage_named :: "string \<Rightarrow> string \<Rightarrow> string option" where
  "match_stage_named stage_name s =
     do {
       s1 \<leftarrow> match_literal_ci ''stage'' s;
       s2 \<leftarrow> expect (\<lambda>c. c = CHR ''('') (skip_spaces s1);
       s3 \<leftarrow> expect is_quote (skip_spaces s2);
       s4 \<leftarrow> match_literal_ci stage_name s3;
       s5 \<leftarrow> expect is_quote s4;
       expect (\<lambda>c. c = CHR '')'') (skip_spaces s5)
     }"

definition match_close :: "string \<Rightarrow> string option" where
  "match_close s =
     do {
       s1 \<leftarrow> expect (\<lambda>c. c = CHR ''}'') s;
       expect (\<lambda>c. c = CHR ''}'') (skip_spaces s1)
     }"

fun find_close :: "string \<Rightarrow> string option" where
  "find_close [] = None"
| "find_close (c # cs) =
     (case match_close (c # cs) of Some rest \<Rightarrow> Some rest | None \<Rightarrow> find_close cs)"

definition match_stage_block :: "string \<Rightarrow> string \<Rightarrow> string option" where
  "match_stage_block stage_name s =
     do {
       s1 \<leftarrow> match_stage_named stage_name s;
       rest \<leftarrow> find_close s1;
       Some (take (length s - length rest) s)
     }"

fun search_stage_block :: "string \<Rightarrow> string \<Rightarrow> string option" where
  "search_stage_block stage_name [] = None"
| "search_stage_block stage_name (c # cs) =
     (case match_stage_block stage_name (c # cs) of
        Some matched \<Rightarrow> Some matched
      | None \<Rightarrow> search_stage_block stage_name cs)"

text \<open>\<open>_extract_stage_commands\<close>\<close>

definition extract_stage_commands :: "string \<Rightarrow> string \<Rightarrow> string list" where
  "extract_stage_commands content stage_name =
     (case search_stage_block stage_name content of
        Some stage_content \<Rightarrow> findall_sh stage_content
      | None \<Rightarrow> [])"

text \<open>\<open>Path.relative_to\<close> raises \<open>ValueError\<close> unless the base is a prefix of the path;
  \<open>str\<close> of a path joins its components, and the empty path is a dot.\<close>

definition relative_to :: "path \<Rightarrow> path \<Rightarrow> error + path" where
  "relative_to p base =
     (if take (length base) p = base then Inr (drop (length base) p) else Inl ValueError)"

definition path_str :: "path \<Rightarrow> string" where
  "path_str p = (if p = [] then ''.'' else join ''/'' p)"

text \<open>\<open>_parse_jenkinsfile\<close>. The state of the file system enters through \<open>exists\<close>, the
  outcome of \<open>Path.exists()\<close> on a path: whether something is there, or the \<open>OSError\<close> that
  the call lets through (a name too long, a directory that may not be searched). The
  marker files are probed in the order of the source, and a probe that is not reached is
  not made.\<close>

definition detect_project ::
  "converter \<Rightarrow> (path \<Rightarrow> error + bool) \<Rightarrow> path \<Rightarrow> error + project_type \<times> string option" where
  "detect_project self exists project_dir =
     try_bind (exists (project_dir @ [''pom.xml''])) (\<lambda>pom.
     if pom then
       try_bind (relative_to project_dir (input_path self)) (\<lambda>rel. Inr (Maven, Some (path_str rel)))
     else
       try_bind (exists (project_dir @ [''build.gradle''])) (\<lambda>gradle.
       try_bind (if gradle then Inr True else exists (project_dir @ [''build.gradle.kts''])) (\<lambda>gradle.
       if gradle then
         try_bind (relative_to project_dir (input_path self)) (\<lambda>rel. Inr (Gradle, Some (path_str rel)))
       else
         try_bind (exists (project_dir @ [''package.json''])) (\<lambda>package.
         if package then
           try_bind (relative_to project_dir (input_path self)) (\<lambda>rel. Inr (Node, Some (path_str rel)))
         else Inr (Generic, None)))))"

definition parse_jenkinsfile ::
  "converter \<Rightarrow> (path \<Rightarrow> error + bool) \<Rightarrow> string \<Rightarrow> path \<Rightarrow> error + pipeline_info" where
  "parse_jenkinsfile self exists content jenkinsfile =
     try_bind (detect_project self exists (butlast jenkinsfile)) (\<lambda>(kind, working_dir).
       Inr \<lparr>stages = map (\<lambda>stage. \<lparr>name = stage,
                                    type = classify_stage (lower stage),
                                    commands = extract_stage_commands content stage\<rparr>)
                        (findall_stage content),
            tools = (if contains (lower content) ''jdk'' \<or> contains (lower content) ''java''
                     then [''java''] else []),
            triggers = [],
            project_type = kind,
            working_directory = working_dir\<rparr>)"

section \<open>Workflow generator\<close>

text \<open>The f-string fragment that prefixes a path with the working directory and a slash
  when one is set; \<open>None\<close> and the empty string count as not set. The local variable
  \<open>working_directory\<close> of the source is \<open>workdir\<close> here.\<close>

definition wd_prefix :: "string option \<Rightarrow> string" where
  "wd_prefix workdir =
     (case workdir of
        None \<Rightarrow> []
      | Some w \<Rightarrow> if w \<noteq> [] then w @ ''/'' else [])"

text \<open>
  The loops that end the three job builders: when a working directory is set, every step
  that has a \<open>run\<close> entry satisfying the test gets a \<open>working-directory\<close> entry. The \<open>run\<close>
  entries of the fixed steps are all strings.
\<close>

definition set_working_directory ::
  "(string \<Rightarrow> bool) \<Rightarrow> string option \<Rightarrow> pydict list \<Rightarrow> pydict list" where
  "set_working_directory needs_it workdir steps =
     (case workdir of
        None \<Rightarrow> steps
      | Some w \<Rightarrow>
          if w \<noteq> [] then
            map (\<lambda>step. case map_of step ''run'' of
                           Some (DStr r) \<Rightarrow>
                             if needs_it r then dict_set step ''working-directory'' (DStr w)
                             else step
                         | _ \<Rightarrow> step) steps
          else steps)"

definition checkout_step :: pydict where
  "checkout_step = [(''name'', DStr ''Checkout code''), (''uses'', DStr ''actions/checkout@v4'')]"

text \<open>\<open>_create_maven_deliver_job\<close>\<close>

definition install_script :: string where
  \<open>install_script =
     ''echo "Installing Maven-built Java application to local Maven repository"\<newline>mvn jar:jar install:install help:evaluate -Dexpression=project.name''\<close>

definition project_info_script :: string where
  \<open>project_info_script =
     ''echo "Extracting project name and version"\<newline>NAME=$(mvn -q -DforceStdout help:evaluate -Dexpression=project.name)\<newline>VERSION=$(mvn -q -DforceStdout help:evaluate -Dexpression=project.version)\<newline>echo "PROJECT_NAME=$NAME" >> $GITHUB_OUTPUT\<newline>echo "PROJECT_VERSION=$VERSION" >> $GITHUB_OUTPUT\<newline>echo "Project: $NAME"\<newline>echo "Version: $VERSION"''\<close>

definition run_script :: string where
  \<open>run_script =
     ''echo "Running the Java application"\<newline>java -jar target/${{ steps.project-info.outputs.PROJECT_NAME }}-${{ steps.project-info.outputs.PROJECT_VERSION }}.jar''\<close>

definition create_maven_deliver_job :: "converter \<Rightarrow> pipeline_info \<Rightarrow> string option \<Rightarrow> error + pydict" where
  "create_maven_deliver_job self pipeline_info workdir =
     try_bind (py_last (java_versions self)) (\<lambda>jdk.
       let steps =
             [ checkout_step,
               [(''name'', DStr (''Set up JDK '' @ jdk)),
                (''uses'', DStr ''actions/setup-java@v4''),
                (''with'', DMap [(''java-version'', DStr jdk),
                                 (''distribution'', DStr ''temurin''),
                                 (''cache'', DStr ''maven'')])],
               [(''name'', DStr ''Download build artifacts''),
                (''uses'', DStr ''actions/download-artifact@v4''),
                (''with'', DMap [(''name'', DStr ''jar-artifact''),
                                 (''path'', DStr (wd_prefix workdir @ ''target/''))])],
               [(''name'', DStr ''Install to local repository''),
                (''run'', DStr install_script)],
               [(''name'', DStr ''Extract project information''),
                (''id'', DStr ''project-info''),
                (''run'', DStr project_info_script)],
               [(''name'', DStr ''Run application''),
                (''run'', DStr run_script)] ];
           steps' = set_working_directory
                      (\<lambda>r. contains r ''mvn'' \<or> contains r ''java -jar'') workdir steps
       in Inr [(''needs'', DStr ''build-and-test''),
               (''runs-on'', DStr (default_runner self)),
               (''if'', DStr (''github.ref == '' @ quoted ''refs/heads/main'')),
               (''steps'', DSeq (map DMap steps'))])"

text \<open>\<open>_create_security_job\<close>\<close>

definition create_security_job :: "converter \<Rightarrow> pipeline_info \<Rightarrow> string option \<Rightarrow> error + pydict" where
  "create_security_job self pipeline_info workdir =
     try_bind (py_last (java_versions self)) (\<lambda>jdk.
       let steps =
             [ checkout_step,
               [(''name'', DStr (''Set up JDK '' @ jdk)),
                (''uses'', DStr ''actions/setup-java@v4''),
                (''with'', DMap [(''java-version'', DStr jdk),
                                 (''distribution'', DStr ''temurin''),
                                 (''cache'', DStr ''maven'')])],
               [(''name'', DStr ''Run OWASP Dependency Check''),
                (''run'', DStr ''mvn org.owasp:dependency-check-maven:check''),
                (''continue-on-error'', DBool True)],
               [(''name'', DStr ''Upload OWASP Dependency Check results''),
                (''uses'', DStr ''actions/upload-artifact@v4''),
                (''if'', DStr ''always()''),
                (''with'', DMap [(''name'', DStr ''owasp-dependency-check-report''),
                                 (''path'', DStr (wd_prefix workdir
                                                  @ ''target/dependency-check-report.html'')),
                                 (''retention-days'', DInt 30)])] ];
           steps' = set_working_directory (\<lambda>r. contains r ''mvn'') workdir steps
       in Inr [(''runs-on'', DStr (default_runner self)),
               (''needs'', DStr ''build-and-test''),
               (''steps'', DSeq (map DMap steps'))])"

text \<open>\<open>_generate_maven_jobs\<close>. The first three steps of the primary job: \<close>

definition setup_steps :: "pydict list" where
  "setup_steps =
     [ checkout_step,
       [(''name'', DStr ''Set up JDK ${{ matrix.java-version }}''),
        (''uses'', DStr ''actions/setup-java@v4''),
        (''with'', DMap [(''java-version'', DStr ''${{ matrix.java-version }}''),
                         (''distribution'', DStr ''temurin''),
                         (''cache'', DStr ''maven'')])],
       [(''name'', DStr ''Cache Maven dependencies''),
        (''uses'', DStr ''actions/cache@v4''),
        (''with'', DMap [(''path'', DStr ''~/.m2''),
                         (''key'', DStr ''${{ runner.os }}-m2-${{ hashFiles('**/pom.xml') }}''),
                         (''restore-keys'', DStr ''${{ runner.os }}-m2'')])] ]"

text \<open>The list \<open>maven_steps\<close>; building it reads the last configured Java version.\<close>

definition maven_steps :: "converter \<Rightarrow> string option \<Rightarrow> error + pydict list" where
  "maven_steps self workdir =
     try_bind (py_last (java_versions self)) (\<lambda>jdk.
       Inr [ [(''name'', DStr ''Validate Maven project''), (''run'', DStr ''mvn validate'')],
             [(''name'', DStr ''Compile project''), (''run'', DStr ''mvn compile'')],
             [(''name'', DStr ''Run tests''), (''run'', DStr ''mvn test'')],
             [(''name'', DStr ''Generate test report''),
              (''uses'', DStr ''dorny/test-reporter@v1''),
              (''if'', DStr ''success() || failure()''),
              (''with'', DMap [(''name'', DStr ''Maven Tests (JDK ${{ matrix.java-version }})''),
                               (''path'', DStr (wd_prefix workdir
                                                @ ''target/surefire-reports/*.xml'')),
                               (''reporter'', DStr ''java-junit''),
                               (''fail-on-error'', DBool True)])],
             [(''name'', DStr ''Build package''),
              (''run'', DStr ''mvn -B -DskipTests clean package'')],
             [(''name'', DStr ''Upload build artifacts''),
              (''uses'', DStr ''actions/upload-artifact@v4''),
              (''if'', DStr (''matrix.java-version == '' @ quoted jdk)),
              (''with'', DMap [(''name'', DStr ''jar-artifact''),
                               (''path'', DStr (wd_prefix workdir @ ''target/*.jar'')),
                               (''retention-days'', DInt 30)])] ])"

definition generate_maven_jobs :: "converter \<Rightarrow> pipeline_info \<Rightarrow> error + pydict" where
  "generate_maven_jobs self pipeline_info =
     (let workdir =
            (case working_directory pipeline_info of
               None \<Rightarrow> None
             | Some working_dir \<Rightarrow>
                 if working_dir \<noteq> [] \<and> working_dir \<noteq> ''.''
                 then Some (''./'' @ working_dir) else None)
      in try_bind (maven_steps self workdir) (\<lambda>steps.
           let steps' = set_working_directory (\<lambda>r. startswith r ''mvn'') workdir steps;
               jobs = dict_set [] ''build-and-test''
                        (DMap [(''runs-on'', DStr (default_runner self)),
                               (''strategy'', DMap [(''matrix'',
                                  DMap [(''java-version'', DSeq (map DStr (java_versions self)))])]),
                               (''steps'', DSeq (map DMap (setup_steps @ steps')))]);
               has_deliver_stage = list_ex (\<lambda>stage. type stage = Deliver) (stages pipeline_info)
           in try_bind
                (if has_deliver_stage
                 then try_bind (create_maven_deliver_job self pipeline_info workdir)
                        (\<lambda>job. Inr (dict_set jobs ''deliver'' (DMap job)))
                 else Inr jobs) (\<lambda>jobs.
              try_bind (create_security_job self pipeline_info workdir) (\<lambda>job.
                Inr (dict_set jobs ''security-scan'' (DMap job))))))"

text \<open>\<open>_generate_generic_jobs\<close>: the steps list starts with the checkout step and grows by
  one step per command, stage after stage.\<close>

definition generate_generic_jobs :: "converter \<Rightarrow> pipeline_info \<Rightarrow> pydict" where
  "generate_generic_jobs self pipeline_info =
     (let steps =
            fold (\<lambda>stage steps.
                    if commands stage \<noteq> [] then
                      fold (\<lambda>command steps.
                              steps @ [[(''name'', DStr (''Run '' @ name stage)),
                                        (''run'', DStr command)]])
                           (commands stage) steps
                    else steps)
                 (stages pipeline_info) [checkout_step]
      in dict_set [] ''build-and-test''
           (DMap [(''runs-on'', DStr (default_runner self)),
                  (''steps'', DSeq (map DMap steps))]))"

text \<open>\<open>_generate_gha_workflow\<close>\<close>

definition generate_gha_workflow :: "converter \<Rightarrow> pipeline_info \<Rightarrow> error + pydict" where
  "generate_gha_workflow self pipeline_info =
     try_bind
       (if project_type pipeline_info = Maven then generate_maven_jobs self pipeline_info
        else Inr (generate_generic_jobs self pipeline_info)) (\<lambda>jobs.
     Inr [(''name'', DStr ''CI/CD Pipeline''),
          (''on'', DMap [(''push'', DMap [(''branches'', DSeq [DStr ''main'', DStr ''develop''])]),
                         (''pull_request'', DMap [(''branches'', DSeq [DStr ''main''])])]),
          (''jobs'', DMap (dict_update [] jobs))])"

section \<open>Tree migration\<close>

subsection \<open>The file system\<close>

text \<open>
  The file system is a tree. A node is a file with its data, a directory with its entries,
  or a symbolic link with its target. The top of the tree is the directory that paths are
  resolved against: a path is the list of names that leads from there to a node, and the
  target of a link is given the same way; paths have no component ``.'' or ``..''. Modes,
  owners and times are not part of the model.
\<close>

datatype node = File string | Dir "(string \<times> node) list" | Link path

text \<open>
  What the copy step reads of an entry of the input root: a regular file with its data, a
  directory with its entries (both as seen through links, which \<open>is_file\<close>, \<open>is_dir\<close> and the
  copy functions follow), an entry that is neither (a dangling link, a pipe, a socket), or an
  entry whose status the system refuses to give, so that \<open>is_file\<close> raises \<open>OSError\<close>.
\<close>

datatype source = SFile string | SDir "(string \<times> source) list" | SOther | SDenied


text \<open>The node at a path of real directories: no link is followed.\<close>

fun get :: "node \<Rightarrow> path \<Rightarrow> node option" where
  "get fs [] = Some fs"
| "get fs (n # ns) =
     (case fs of
        Dir entries \<Rightarrow> (case map_of entries n of None \<Rightarrow> None | Some x \<Rightarrow> get x ns)
      | File data \<Rightarrow> None
      | Link target \<Rightarrow> None)"






subsection \<open>The library calls\<close>





subsection \<open>The copy step\<close>

text \<open>The list at the head of \<open>_copy_source_code\<close>.\<close>

definition exclude_patterns :: "string list" where
  "exclude_patterns =
     [''Jenkinsfile*'', ''jenkins/'', ''.git/'', ''__pycache__/'', ''*.pyc'', ''.DS_Store'',
      ''Thumbs.db'']"




text \<open>\<open>fnmatch\<close> for patterns whose only wildcard is the star, as all of the exclusion
  patterns are.\<close>

fun fnmatch :: "string \<Rightarrow> string \<Rightarrow> bool" where
  "fnmatch [] [] = True"
| "fnmatch (c # cs) [] = False"
| "fnmatch [] (p # ps) = (p = CHR ''*'' \<and> fnmatch [] ps)"
| "fnmatch (c # cs) (p # ps) =
     (if p = CHR ''*'' then fnmatch (c # cs) ps \<or> fnmatch cs (p # ps)
      else c = p \<and> fnmatch cs ps)"

text \<open>\<open>shutil.copytree\<close> with \<open>ignore_patterns(*exclude_patterns)\<close> leaves out, at every
  level, the entries whose name matches a pattern.\<close>

definition ignored :: "string \<Rightarrow> bool" where
  "ignored entry_name \<longleftrightarrow> list_ex (\<lambda>pattern. fnmatch entry_name pattern) exclude_patterns"

text \<open>What \<open>copytree\<close> writes below the new directory: files and directories, without the
  ignored names and without the entries that cannot be copied.\<close>

fun copy_entries :: "(string \<times> source) list \<Rightarrow> (string \<times> node) list"
  and copy_entry :: "string \<Rightarrow> source \<Rightarrow> (string \<times> node) list" where
  "copy_entries [] = []"
| "copy_entries ((entry_name, entry) # entries) =
     (if ignored entry_name then copy_entries entries
      else copy_entry entry_name entry @ copy_entries entries)"
| "copy_entry entry_name (SFile data) = [(entry_name, File data)]"
| "copy_entry entry_name (SDir entries) = [(entry_name, Dir (copy_entries entries))]"
| "copy_entry entry_name SOther = []"
| "copy_entry entry_name SDenied = []"

text \<open>Whether some entry that is not ignored could not be copied: \<open>copytree\<close> then goes on
  with the other entries and raises \<open>shutil.Error\<close> at the end.\<close>

fun copy_fails :: "(string \<times> source) list \<Rightarrow> bool"
  and copy_fails_at :: "source \<Rightarrow> bool" where
  "copy_fails [] = False"
| "copy_fails ((entry_name, entry) # entries) =
     ((\<not> ignored entry_name \<and> copy_fails_at entry) \<or> copy_fails entries)"
| "copy_fails_at (SFile data) = False"
| "copy_fails_at (SDir entries) = copy_fails entries"
| "copy_fails_at SOther = True"
| "copy_fails_at SDenied = True"




section \<open>Observations and example inputs\<close>

text \<open>A string mentions a keyword list when one of the keywords occurs in it as a
  substring.\<close>

definition mentions :: "string \<Rightarrow> string list \<Rightarrow> bool" where
  "mentions s kws \<longleftrightarrow> (\<exists>k \<in> set kws. \<exists>p q. s = p @ k @ q)"

text \<open>A converter with the default settings, and two pipeline models.\<close>

definition default_converter :: converter where
  "default_converter =
     \<lparr>input_path = [''jenkins-repo''], output_path = [''gha-repo''],
      java_versions = [''17'', ''21''], default_runner = ''ubuntu-latest''\<rparr>"

definition maven_pipeline :: pipeline_info where
  "maven_pipeline =
     \<lparr>stages = [\<lparr>name = ''Build'', type = Build, commands = [''mvn -B clean package'']\<rparr>,
                \<lparr>name = ''Deliver'', type = Deliver, commands = [''./jenkins/scripts/deliver.sh'']\<rparr>],
      tools = [''java''], triggers = [], project_type = Maven, working_directory = Some ''.''\<rparr>"

definition generic_pipeline :: pipeline_info where
  "generic_pipeline =
     \<lparr>stages = [\<lparr>name = ''Build'', type = Build, commands = [''make'', ''make install'']\<rparr>,
                \<lparr>name = ''Lint'', type = Build, commands = []\<rparr>,
                \<lparr>name = ''Test'', type = Test, commands = [''make'']\<rparr>],
      tools = [], triggers = [], project_type = Generic, working_directory = None\<rparr>"

text \<open>Reading a generated jobs mapping: the steps of a job (the elements of its \<open>steps\<close>
  sequence that are mappings), and the steps with a given name.\<close>

fun mappings :: "doc list \<Rightarrow> pydict list" where
  "mappings [] = []"
| "mappings (DMap m # xs) = m # mappings xs"
| "mappings (x # xs) = mappings xs"

definition job_steps :: "pydict \<Rightarrow> string \<Rightarrow> pydict list" where
  "job_steps jobs job =
     (case map_of jobs job of
        Some (DMap j) \<Rightarrow> (case map_of j ''steps'' of Some (DSeq steps) \<Rightarrow> mappings steps | _ \<Rightarrow> [])
      | _ \<Rightarrow> [])"

definition steps_named :: "pydict list \<Rightarrow> string \<Rightarrow> pydict list" where
  "steps_named steps n = filter (\<lambda>step. map_of step ''name'' = Some (DStr n)) steps"

text \<open>The steps one stage contributes to the generic job: one per command, in order, each
  named after the stage.\<close>

definition stage_steps :: "stage_info \<Rightarrow> doc list" where
  "stage_steps stage =
     map (\<lambda>command. DMap [(''name'', DStr (''Run '' @ name stage)), (''run'', DStr command)])
       (commands stage)"


text \<open>A pipeline text that declares the stage names A, a and a, in this order.\<close>

definition three_stages :: string where
  "three_stages =
     ''stage('A') { steps { sh 'x' } } stage('a') { steps { sh 'y' } } stage('a') { steps { sh 'z' } }''"




text \<open>One file system grows into another when every file keeps its data, every link its
  target and every directory stays a directory, at the same place.\<close>

definition grows :: "node \<Rightarrow> node \<Rightarrow> bool" where
  "grows a b \<longleftrightarrow>
     (\<forall>p. case get a p of
            None \<Rightarrow> True
          | Some (File data) \<Rightarrow> get b p = Some (File data)
          | Some (Link target) \<Rightarrow> get b p = Some (Link target)
          | Some (Dir entries) \<Rightarrow> (\<exists>entries'. get b p = Some (Dir entries')))"




section \<open>Properties of the text helpers\<close>

lemma startswith_iff: "startswith s k \<longleftrightarrow> (\<exists>q. s = k @ q)"
  by (induction s k rule: startswith.induct) auto

lemma contains_iff: "contains s k \<longleftrightarrow> (\<exists>p q. s = p @ k @ q)"
proof (induction s)
  case Nil
  show ?case by simp
next
  case (Cons c cs)
  show ?case
  proof
    assume "contains (c # cs) k"
    then consider "startswith (c # cs) k" | "contains cs k" by auto
    then show "\<exists>p q. c # cs = p @ k @ q"
    proof cases
      case 1
      then obtain q where "c # cs = k @ q" by (auto simp: startswith_iff)
      then have "c # cs = [] @ k @ q" by simp
      then show ?thesis by blast
    next
      case 2
      then obtain p q where "cs = p @ k @ q" using Cons.IH by blast
      then have "c # cs = (c # p) @ k @ q" by simp
      then show ?thesis by blast
    qed
  next
    assume "\<exists>p q. c # cs = p @ k @ q"
    then obtain p q where pq: "c # cs = p @ k @ q" by blast
    show "contains (c # cs) k"
    proof (cases p)
      case Nil
      then have "startswith (c # cs) k" using pq by (auto simp: startswith_iff)
      then show ?thesis by simp
    next
      case (Cons a p')
      then have "cs = p' @ k @ q" using pq by simp
      then have "contains cs k" using Cons.IH by blast
      then show ?thesis by simp
    qed
  qed
qed

section \<open>Properties of the stage classifier\<close>

lemma list_ex_contains: "list_ex (\<lambda>keyword. contains s keyword) kws \<longleftrightarrow> mentions s kws"
  by (simp add: list_ex_iff contains_iff mentions_def)

text \<open>
  Claim C1. The classifier is a total function of the (lowercased) stage name: it tests the
  build, test, delivery and security keyword lists for an occurrence as a substring, in
  that order, answers with the first list that has one and with build when none has.
  So ``build and test'' is a build stage, ``security audit'' a security stage,
  ``deploy to prod'' a delivery stage, ``run tests'' a test stage and ``lint'' a build stage;
  the same holds for the capitalised names once the parser has lowercased them.
\<close>

theorem classify_stage_priority:
  "(mentions s build_keywords \<longrightarrow> classify_stage s = Build)
   \<and> (\<not> mentions s build_keywords \<and> mentions s test_keywords \<longrightarrow> classify_stage s = Test)
   \<and> (\<not> mentions s build_keywords \<and> \<not> mentions s test_keywords
        \<and> mentions s deploy_keywords \<longrightarrow> classify_stage s = Deliver)
   \<and> (\<not> mentions s build_keywords \<and> \<not> mentions s test_keywords
        \<and> \<not> mentions s deploy_keywords \<and> mentions s security_keywords
        \<longrightarrow> classify_stage s = Security)
   \<and> (\<not> mentions s build_keywords \<and> \<not> mentions s test_keywords
        \<and> \<not> mentions s deploy_keywords \<and> \<not> mentions s security_keywords
        \<longrightarrow> classify_stage s = Build)
   \<and> classify_stage ''build and test'' = Build
   \<and> classify_stage ''security audit'' = Security
   \<and> classify_stage ''deploy to prod'' = Deliver
   \<and> classify_stage ''run tests'' = Test
   \<and> classify_stage ''lint'' = Build
   \<and> map (\<lambda>stage. classify_stage (lower stage))
         [''Build and Test'', ''Security Audit'', ''Deploy to Prod'', ''Run Tests'', ''Lint'']
       = [Build, Security, Deliver, Test, Build]"
proof -
  have ex: "classify_stage ''build and test'' = Build"
    "classify_stage ''security audit'' = Security"
    "classify_stage ''deploy to prod'' = Deliver"
    "classify_stage ''run tests'' = Test"
    "classify_stage ''lint'' = Build"
    by (simp_all add: classify_stage_def build_keywords_def test_keywords_def
        deploy_keywords_def security_keywords_def)
  have gen: "classify_stage s =
     (if mentions s build_keywords then Build
      else if mentions s test_keywords then Test
      else if mentions s deploy_keywords then Deliver
      else if mentions s security_keywords then Security
      else Build)"
    unfolding classify_stage_def list_ex_contains ..
  have cap: "map (\<lambda>stage. classify_stage (lower stage))
         [''Build and Test'', ''Security Audit'', ''Deploy to Prod'', ''Run Tests'', ''Lint'']
       = [Build, Security, Deliver, Test, Build]"
    by code_simp
  show ?thesis using ex cap by (simp add: gen)
qed

theorem classify_stage_priority_witness:
  "\<not> mentions ''unit checks'' build_keywords
   \<and> mentions ''unit checks'' test_keywords
   \<and> classify_stage ''unit checks'' = Test"
proof -
  have a: "\<not> mentions ''unit checks'' build_keywords"
    unfolding list_ex_contains [symmetric] by (simp add: build_keywords_def)
  have b: "mentions ''unit checks'' test_keywords"
    unfolding list_ex_contains [symmetric] by (simp add: test_keywords_def)
  show ?thesis using a b classify_stage_priority [of "''unit checks''"] by blast
qed

section \<open>Properties of the emitter\<close>

lemma ind_Suc: "ind (Suc n) = ind n @ ''  ''"
  unfolding ind_def by (induction n) simp_all

lemma yaml_entries_append:
  "yaml_entries (pre @ post) n = yaml_entries pre n @ yaml_entries post n"
proof (induction pre)
  case Nil
  show ?case by simp
next
  case (Cons kv pre)
  obtain k v where kv: "kv = (k, v)" by (cases kv)
  show ?case using Cons.IH unfolding kv by (cases v) simp_all
qed

lemma yaml_items_append:
  "yaml_items (xs @ ys) n = yaml_items xs n @ yaml_items ys n"
proof (induction xs)
  case Nil
  show ?case by simp
next
  case (Cons x xs)
  show ?case using Cons.IH by (cases x) simp_all
qed

lemma yaml_lines_indented:
  "(\<forall>l \<in> set (dict_to_yaml d n). startswith l (ind n))"
  "(\<forall>l \<in> set (yaml_entries kvs n). startswith l (ind n))"
  "(\<forall>l \<in> set (yaml_items xs n). startswith l (ind n))"
proof (induction d n and kvs n and xs n rule: dict_to_yaml_yaml_entries_yaml_items.induct)
  case (13 m xs indent)
  then show ?case 
    by (auto simp: startswith_iff ind_Suc split: list.splits)
qed (auto simp: startswith_iff ind_Suc)

lemma yaml_entries_first:
  "\<exists>rest others. yaml_entries ((k, v) # m) n = (ind n @ k @ '':'' @ rest) # others"
  by (cases v) auto

text \<open>
  Claim C3, as the code has it. Inside a mapping rendered at depth \<open>n\<close>, an element \<open>x\<close>
  of a sequence value contributes its own lines between those of its neighbours.
  When \<open>x\<close> is a mapping with first key \<open>k\<close>, its rendering one level deeper starts with
  the line of \<open>k\<close>; that line, stripped, is joined to the marker line at depth \<open>n\<close>, and the
  other lines follow unchanged, each of them indented two columns more than the marker.
  An empty mapping leaves the marker alone. A scalar element is one line: the marker
  and \<open>str\<close> of the scalar.
\<close>

theorem sequence_element_rendering:
  "dict_to_yaml (DMap (pre @ (key, DSeq (xs @ x # ys)) # post)) n =
     dict_to_yaml (DMap pre) n @ [ind n @ key @ '':''] @ yaml_items xs n
       @ yaml_items [x] n @ yaml_items ys n @ dict_to_yaml (DMap post) n
   \<and> (\<forall>k v m. x = DMap ((k, v) # m) \<longrightarrow>
        (\<exists>rest others. dict_to_yaml x (n + 1) = (ind (n + 1) @ k @ '':'' @ rest) # others
           \<and> yaml_items [x] n = (ind n @ ''- '' @ strip (ind (n + 1) @ k @ '':'' @ rest)) # others
           \<and> (\<forall>l \<in> set others. startswith l (ind n @ ''  ''))))
   \<and> (x = DMap [] \<longrightarrow> yaml_items [x] n = [ind n @ ''- ''])
   \<and> (\<forall>s. x = DStr s \<longrightarrow> yaml_items [x] n = [ind n @ ''- '' @ s])
   \<and> (\<forall>b. x = DBool b \<longrightarrow>
        yaml_items [x] n = [ind n @ ''- '' @ (if b then ''True'' else ''False'')])
   \<and> (\<forall>i. x = DInt i \<longrightarrow> yaml_items [x] n = [ind n @ ''- '' @ str_int i])"
proof -
  have one: "yaml_items (x # ys) n = yaml_items [x] n @ yaml_items ys n"
    using yaml_items_append [of "[x]" ys n] by simp
  have a: "dict_to_yaml (DMap (pre @ (key, DSeq (xs @ x # ys)) # post)) n =
     dict_to_yaml (DMap pre) n @ [ind n @ key @ '':''] @ yaml_items xs n
       @ yaml_items [x] n @ yaml_items ys n @ dict_to_yaml (DMap post) n"
    by (simp add: yaml_entries_append yaml_items_append one)
  have b: "\<exists>rest others. dict_to_yaml x (n + 1) = (ind (n + 1) @ k @ '':'' @ rest) # others
           \<and> yaml_items [x] n = (ind n @ ''- '' @ strip (ind (n + 1) @ k @ '':'' @ rest)) # others
           \<and> (\<forall>l \<in> set others. startswith l (ind n @ ''  ''))"
    if x: "x = DMap ((k, v) # m)" for k v m
  proof -
    obtain rest others where f: "yaml_entries ((k, v) # m) (n + 1) = (ind (n + 1) @ k @ '':'' @ rest) # others"
      using yaml_entries_first by blast
    have "\<forall>l \<in> set (yaml_entries ((k, v) # m) (n + 1)). startswith l (ind (n + 1))"
      by (rule yaml_lines_indented)
    then have "\<forall>l \<in> set others. startswith l (ind n @ ''  '')"
      unfolding f by (simp add: ind_Suc)
    moreover have "yaml_items [x] n = (ind n @ ''- '' @ strip (ind (n + 1) @ k @ '':'' @ rest)) # others"
      unfolding x using f by simp
    moreover have "dict_to_yaml x (n + 1) = (ind (n + 1) @ k @ '':'' @ rest) # others"
      unfolding x using f by simp
    ultimately show ?thesis by blast
  qed
  have c: "x = DMap [] \<longrightarrow> yaml_items [x] n = [ind n @ ''- '']" by simp
  have d: "\<forall>s. x = DStr s \<longrightarrow> yaml_items [x] n = [ind n @ ''- '' @ s]"
    by (simp add: py_str_def)
  have e: "\<forall>b. x = DBool b \<longrightarrow>
        yaml_items [x] n = [ind n @ ''- '' @ (if b then ''True'' else ''False'')]"
    by (simp add: py_str_def)
  have f: "\<forall>i. x = DInt i \<longrightarrow> yaml_items [x] n = [ind n @ ''- '' @ str_int i]"
    by (simp add: py_str_def)
  from a b c d e f show ?thesis by blast
qed

theorem sequence_element_rendering_witness:
  "dict_to_yaml (DMap [(''steps'', DSeq [DStr ''x'',
       DMap [(''name'', DStr ''a''), (''run'', DStr ''b'')], DBool True])]) 0
   = [''steps:'', ''- x'', ''- name: a'', ''  run: b'', ''- True'']"
  using sequence_element_rendering [of "[]" "''steps''" "[DStr ''x'']"
      "DMap [(''name'', DStr ''a''), (''run'', DStr ''b'')]" "[DBool True]" "[]" 0]
  by (simp add: ind_def strip_def is_space_def newline_def py_str_def)

text \<open>
  Claim C3 as stated puts the remaining lines of a mapping element at the indent of the
  marker line. In the rendering of \<open>steps: [{name: a, run: b}]\<close> the marker line starts in
  column 0 and the remaining line in column 2.
\<close>

theorem sequence_element_same_indent_counterexample:
  "dict_to_yaml (DMap [(''steps'', DSeq [DMap [(''name'', DStr ''a''), (''run'', DStr ''b'')]])]) 0
     = [''steps:'', ''- name: a'', ''  run: b'']
   \<and> leading_spaces ''- name: a'' = 0
   \<and> leading_spaces ''  run: b'' = 2"
  by (simp add: ind_def strip_def is_space_def newline_def leading_spaces_def)

text \<open>
  Claim C10. A document whose root is not a mapping (a sequence or a scalar) renders to no
  line at all, whatever it holds; a rendering that has a line comes from a mapping.
\<close>

theorem non_mapping_root_renders_nothing:
  "((\<forall>m. d \<noteq> DMap m) \<longrightarrow> dict_to_yaml d n = [])
   \<and> (dict_to_yaml d n \<noteq> [] \<longrightarrow> (\<exists>m. d = DMap m))"
  by (cases d) simp_all

theorem non_mapping_root_renders_nothing_witness:
  "dict_to_yaml (DSeq [DStr ''a'', DMap [(''k'', DInt 1)]]) 0 = []
   \<and> dict_to_yaml (DStr ''a'') 2 = []"
  using non_mapping_root_renders_nothing [of "DSeq [DStr ''a'', DMap [(''k'', DInt 1)]]" 0]
    non_mapping_root_renders_nothing [of "DStr ''a''" 2]
  by simp

section \<open>Properties of the workflow generator\<close>

lemma dict_set_new: "key \<notin> fst ` set d \<Longrightarrow> dict_set d key v = d @ [(key, v)]"
  by (induction d key v rule: dict_set.induct) auto

lemma fold_dict_set_fresh:
  "distinct (map fst other) \<Longrightarrow> fst ` set other \<inter> fst ` set d = {}
   \<Longrightarrow> fold (\<lambda>(k, v) acc. dict_set acc k v) other d = d @ other"
proof (induction other arbitrary: d)
  case Nil
  show ?case by simp
next
  case (Cons kv other)
  obtain k v where kv: "kv = (k, v)" by (cases kv)
  have fresh: "k \<notin> fst ` set d" using Cons.prems(2) kv by auto
  have "fst ` set other \<inter> fst ` set (d @ [(k, v)]) = {}"
    using Cons.prems kv by auto
  moreover have "distinct (map fst other)" using Cons.prems(1) by simp
  ultimately have "fold (\<lambda>(k, v) acc. dict_set acc k v) other (d @ [(k, v)]) = (d @ [(k, v)]) @ other"
    by (rule Cons.IH [rotated])
  then show ?case using fresh kv by (simp add: dict_set_new)
qed

lemma dict_update_empty: "distinct (map fst d) \<Longrightarrow> dict_update [] d = d"
  unfolding dict_update_def using fold_dict_set_fresh [of d "[]"] by simp

lemma maven_jobs_keys:
  assumes "java_versions self \<noteq> []"
  shows "\<exists>jobs. generate_maven_jobs self pipeline_info = Inr jobs
     \<and> map fst jobs = (if list_ex (\<lambda>stage. type stage = Deliver) (stages pipeline_info)
                       then [''build-and-test'', ''deliver'', ''security-scan'']
                       else [''build-and-test'', ''security-scan''])"
  using assms
  by (simp add: generate_maven_jobs_def maven_steps_def create_maven_deliver_job_def
      create_security_job_def try_bind_def py_last_def Let_def)

lemma maven_jobs_empty:
  "java_versions self = [] \<Longrightarrow> generate_maven_jobs self pipeline_info = Inl IndexError"
  by (simp add: generate_maven_jobs_def maven_steps_def try_bind_def py_last_def Let_def)

text \<open>
  Claim C2. For a pipeline of project type maven, a workflow is generated whenever the
  converter has at least one Java version, and every workflow that is generated has a jobs
  mapping with the keys \<open>build-and-test\<close> and \<open>security-scan\<close>, and with the key \<open>deliver\<close>
  exactly when some stage of the pipeline has type deliver.
\<close>

theorem maven_workflow_jobs:
  "project_type pipeline_info = Maven \<longrightarrow>
     (java_versions self \<noteq> [] \<longrightarrow> (\<exists>workflow. generate_gha_workflow self pipeline_info = Inr workflow))
     \<and> (\<forall>workflow. generate_gha_workflow self pipeline_info = Inr workflow \<longrightarrow>
           (\<exists>jobs. map_of workflow ''jobs'' = Some (DMap jobs)
              \<and> ''build-and-test'' \<in> fst ` set jobs
              \<and> ''security-scan'' \<in> fst ` set jobs
              \<and> (''deliver'' \<in> fst ` set jobs \<longleftrightarrow> (\<exists>stage \<in> set (stages pipeline_info). type stage = Deliver))))"
proof (intro impI conjI allI)
  assume m: "project_type pipeline_info = Maven"
  {
    assume "java_versions self \<noteq> []"
    then obtain jobs where "generate_maven_jobs self pipeline_info = Inr jobs"
      using maven_jobs_keys by blast
    then show "\<exists>workflow. generate_gha_workflow self pipeline_info = Inr workflow"
      using m by (simp add: generate_gha_workflow_def try_bind_def)
  }
  fix workflow
  assume w: "generate_gha_workflow self pipeline_info = Inr workflow"
  have ne: "java_versions self \<noteq> []"
  proof
    assume "java_versions self = []"
    then have "generate_maven_jobs self pipeline_info = Inl IndexError" by (rule maven_jobs_empty)
    then show False using w m by (simp add: generate_gha_workflow_def try_bind_def)
  qed
  then obtain jobs where j: "generate_maven_jobs self pipeline_info = Inr jobs"
     and k: "map fst jobs = (if list_ex (\<lambda>stage. type stage = Deliver) (stages pipeline_info)
                       then [''build-and-test'', ''deliver'', ''security-scan'']
                       else [''build-and-test'', ''security-scan''])"
    using maven_jobs_keys by blast
  show "\<exists>jobs. map_of workflow ''jobs'' = Some (DMap jobs)
              \<and> ''build-and-test'' \<in> fst ` set jobs
              \<and> ''security-scan'' \<in> fst ` set jobs
              \<and> (''deliver'' \<in> fst ` set jobs \<longleftrightarrow> (\<exists>stage \<in> set (stages pipeline_info). type stage = Deliver))"
  proof -
    have d: "distinct (map fst jobs)" unfolding k by simp
    have "workflow = [(''name'', DStr ''CI/CD Pipeline''),
          (''on'', DMap [(''push'', DMap [(''branches'', DSeq [DStr ''main'', DStr ''develop''])]),
                         (''pull_request'', DMap [(''branches'', DSeq [DStr ''main''])])]),
          (''jobs'', DMap jobs)]"
      using w m j by (simp add: generate_gha_workflow_def try_bind_def dict_update_empty [OF d])
    then have a: "map_of workflow ''jobs'' = Some (DMap jobs)" by simp
    have s: "fst ` set jobs = set (map fst jobs)" by simp
    have b: "''build-and-test'' \<in> fst ` set jobs" "''security-scan'' \<in> fst ` set jobs"
      "''deliver'' \<in> fst ` set jobs \<longleftrightarrow> (\<exists>stage \<in> set (stages pipeline_info). type stage = Deliver)"
      unfolding s k by (simp_all add: list_ex_iff)
    from a b show ?thesis by blast
  qed
qed

theorem maven_workflow_jobs_witness:
  "\<exists>workflow jobs. generate_gha_workflow default_converter maven_pipeline = Inr workflow
     \<and> map_of workflow ''jobs'' = Some (DMap jobs)
     \<and> ''build-and-test'' \<in> fst ` set jobs
     \<and> ''security-scan'' \<in> fst ` set jobs
     \<and> ''deliver'' \<in> fst ` set jobs"
proof -
  have m: "project_type maven_pipeline = Maven" by (simp add: maven_pipeline_def)
  have v: "java_versions default_converter \<noteq> []" by (simp add: default_converter_def)
  have d: "\<exists>stage \<in> set (stages maven_pipeline). type stage = Deliver"
    by (simp add: maven_pipeline_def)
  note t = maven_workflow_jobs [of maven_pipeline default_converter]
  from t m v obtain workflow
    where w: "generate_gha_workflow default_converter maven_pipeline = Inr workflow" by blast
  from t m w d show ?thesis by blast
qed

lemma mappings_map_DMap: "mappings (map DMap xs) = xs"
  by (induction xs) simp_all

lemma upload_step_general:
  assumes "java_versions self \<noteq> []"
  shows "\<exists>jobs upload. generate_maven_jobs self pipeline_info = Inr jobs
       \<and> steps_named (job_steps jobs ''build-and-test'') ''Upload build artifacts'' = [upload]
       \<and> map_of upload ''uses'' = Some (DStr ''actions/upload-artifact@v4'')
       \<and> map_of upload ''if''
           = Some (DStr (''matrix.java-version == '' @ quoted (last (java_versions self))))"
  using assms
  by (simp add: generate_maven_jobs_def maven_steps_def create_maven_deliver_job_def
      create_security_job_def try_bind_def py_last_def Let_def job_steps_def steps_named_def
      set_working_directory_def setup_steps_def checkout_step_def mappings_map_DMap
      split: option.splits)

text \<open>
  Claim C4. Whenever the converter has at least one Java version, the maven jobs are
  generated and the primary job has exactly one step named ``Upload build artifacts'';
  it uses the upload action and its condition compares the matrix variable with the last
  configured version, in single quotes. For the versions 11 and 17 the condition mentions
  17 and does not mention 11.
\<close>

theorem upload_gated_on_last_version:
  "(java_versions self \<noteq> [] \<longrightarrow>
      (\<exists>jobs upload. generate_maven_jobs self pipeline_info = Inr jobs
         \<and> steps_named (job_steps jobs ''build-and-test'') ''Upload build artifacts'' = [upload]
         \<and> map_of upload ''uses'' = Some (DStr ''actions/upload-artifact@v4'')
         \<and> map_of upload ''if''
             = Some (DStr (''matrix.java-version == '' @ quoted (last (java_versions self))))))
   \<and> (java_versions self = [''11'', ''17''] \<longrightarrow>
      (\<exists>jobs upload condition. generate_maven_jobs self pipeline_info = Inr jobs
         \<and> steps_named (job_steps jobs ''build-and-test'') ''Upload build artifacts'' = [upload]
         \<and> map_of upload ''if'' = Some (DStr condition)
         \<and> condition = ''matrix.java-version == '' @ quoted ''17''
         \<and> contains condition ''17'' \<and> \<not> contains condition ''11''))"
proof (intro conjI impI)
  assume "java_versions self \<noteq> []"
  then show "\<exists>jobs upload. generate_maven_jobs self pipeline_info = Inr jobs
         \<and> steps_named (job_steps jobs ''build-and-test'') ''Upload build artifacts'' = [upload]
         \<and> map_of upload ''uses'' = Some (DStr ''actions/upload-artifact@v4'')
         \<and> map_of upload ''if''
             = Some (DStr (''matrix.java-version == '' @ quoted (last (java_versions self))))"
    by (rule upload_step_general)
next
  assume jv: "java_versions self = [''11'', ''17'']"
  then have "java_versions self \<noteq> []" by simp
  then obtain jobs upload where g: "generate_maven_jobs self pipeline_info = Inr jobs"
     "steps_named (job_steps jobs ''build-and-test'') ''Upload build artifacts'' = [upload]"
     "map_of upload ''if''
             = Some (DStr (''matrix.java-version == '' @ quoted (last (java_versions self))))"
    using upload_step_general by blast
  have c: "contains (''matrix.java-version == '' @ quoted ''17'') ''17''"
    "\<not> contains (''matrix.java-version == '' @ quoted ''17'') ''11''"
    by (simp_all add: quoted_def)
  show "\<exists>jobs upload condition. generate_maven_jobs self pipeline_info = Inr jobs
         \<and> steps_named (job_steps jobs ''build-and-test'') ''Upload build artifacts'' = [upload]
         \<and> map_of upload ''if'' = Some (DStr condition)
         \<and> condition = ''matrix.java-version == '' @ quoted ''17''
         \<and> contains condition ''17'' \<and> \<not> contains condition ''11''"
    using g c unfolding jv by auto
qed

theorem upload_gated_on_last_version_witness:
  "\<exists>jobs upload.
      generate_maven_jobs (default_converter\<lparr>java_versions := [''11'', ''17'']\<rparr>)
        maven_pipeline = Inr jobs
      \<and> steps_named (job_steps jobs ''build-and-test'') ''Upload build artifacts'' = [upload]
      \<and> map_of upload ''if'' = Some (DStr (''matrix.java-version == '' @ quoted ''17''))"
proof -
  have v: "java_versions (default_converter\<lparr>java_versions := [''11'', ''17'']\<rparr>)
      = [''11'', ''17'']" by simp
  from upload_gated_on_last_version
         [of "default_converter\<lparr>java_versions := [''11'', ''17'']\<rparr>"
             maven_pipeline] v
  show ?thesis by blast
qed

text \<open>
  Claim C8. With no Java version configured, building the maven jobs reads the last element
  of an empty list and ends in \<open>IndexError\<close>; so do the delivery and the security job
  builders, and the whole workflow generation for a maven pipeline. With at least one
  version the maven jobs are built.
\<close>

theorem maven_jobs_need_a_java_version:
  "(java_versions self = [] \<longrightarrow>
      generate_maven_jobs self pipeline_info = Inl IndexError
      \<and> create_maven_deliver_job self pipeline_info workdir = Inl IndexError
      \<and> create_security_job self pipeline_info workdir = Inl IndexError
      \<and> (project_type pipeline_info = Maven \<longrightarrow>
           generate_gha_workflow self pipeline_info = Inl IndexError))
   \<and> (java_versions self \<noteq> [] \<longrightarrow>
      (\<exists>jobs. generate_maven_jobs self pipeline_info = Inr jobs))"
proof (intro conjI impI)
  assume e: "java_versions self = []"
  show g: "generate_maven_jobs self pipeline_info = Inl IndexError"
    using e by (rule maven_jobs_empty)
  show "create_maven_deliver_job self pipeline_info workdir = Inl IndexError"
    using e by (simp add: create_maven_deliver_job_def try_bind_def py_last_def)
  show "create_security_job self pipeline_info workdir = Inl IndexError"
    using e by (simp add: create_security_job_def try_bind_def py_last_def)
  assume "project_type pipeline_info = Maven"
  then show "generate_gha_workflow self pipeline_info = Inl IndexError"
    using g by (simp add: generate_gha_workflow_def try_bind_def)
next
  assume "java_versions self \<noteq> []"
  then show "\<exists>jobs. generate_maven_jobs self pipeline_info = Inr jobs"
    using maven_jobs_keys by blast
qed

theorem maven_jobs_need_a_java_version_witness:
  "generate_maven_jobs (default_converter\<lparr>java_versions := []\<rparr>) maven_pipeline
     = Inl IndexError
   \<and> generate_gha_workflow (default_converter\<lparr>java_versions := []\<rparr>) maven_pipeline
     = Inl IndexError
   \<and> (\<exists>jobs. generate_maven_jobs default_converter maven_pipeline = Inr jobs)"
proof -
  have e: "java_versions (default_converter\<lparr>java_versions := []\<rparr>) = []" by simp
  have m: "project_type maven_pipeline = Maven" by (simp add: maven_pipeline_def)
  have v: "java_versions default_converter \<noteq> []" by (simp add: default_converter_def)
  from maven_jobs_need_a_java_version
         [of "default_converter\<lparr>java_versions := []\<rparr>" maven_pipeline] e m
    maven_jobs_need_a_java_version [of default_converter maven_pipeline] v
  show ?thesis by blast
qed

lemma fold_append_step: "fold (\<lambda>command steps. steps @ [g command]) cs acc = acc @ map g cs"
  by (induction cs arbitrary: acc) simp_all

lemma fold_stage_steps:
  "fold (\<lambda>stage steps.
           if commands stage \<noteq> [] then
             fold (\<lambda>command steps. steps @ [g stage command]) (commands stage) steps
           else steps) sts acc
   = acc @ concat (map (\<lambda>stage. map (g stage) (commands stage)) sts)"
  by (induction sts arbitrary: acc) (simp_all add: fold_append_step)

lemma stage_steps_concat:
  "map DMap (concat (map (\<lambda>stage. map (\<lambda>command. [(''name'', DStr (''Run '' @ name stage)),
        (''run'', DStr command)]) (commands stage)) sts))
   = concat (map stage_steps sts)"
  by (induction sts) (simp_all add: stage_steps_def)

lemma stage_steps_length:
  "length (concat (map stage_steps sts)) = sum_list (map (\<lambda>stage. length (commands stage)) sts)"
  by (induction sts) (simp_all add: stage_steps_def)

text \<open>
  Claim C6. For a pipeline whose project type is not maven, the workflow is generated and
  its jobs mapping has the single job \<open>build-and-test\<close>, whose steps are the checkout step
  followed by the steps of every stage in order: one step per command, named after its
  stage, nothing dropped and nothing merged. The checkout step is the step named
  ``Checkout code'' that uses \<open>actions/checkout@v4\<close>. With no stage it is alone.
\<close>

theorem generic_workflow_steps:
  "project_type pipeline_info \<noteq> Maven \<longrightarrow>
     (\<exists>workflow steps. generate_gha_workflow self pipeline_info = Inr workflow
        \<and> map_of workflow ''jobs''
            = Some (DMap [(''build-and-test'',
                 DMap [(''runs-on'', DStr (default_runner self)), (''steps'', DSeq steps)])])
        \<and> steps = DMap [(''name'', DStr ''Checkout code''), (''uses'', DStr ''actions/checkout@v4'')]
                    # concat (map stage_steps (stages pipeline_info))
        \<and> length steps = 1 + sum_list (map (\<lambda>stage. length (commands stage)) (stages pipeline_info))
        \<and> (stages pipeline_info = [] \<longrightarrow>
              steps = [DMap [(''name'', DStr ''Checkout code''), (''uses'', DStr ''actions/checkout@v4'')]]))"
proof
  assume g: "project_type pipeline_info \<noteq> Maven"
  let ?steps = "DMap [(''name'', DStr ''Checkout code''), (''uses'', DStr ''actions/checkout@v4'')] # concat (map stage_steps (stages pipeline_info))"
  have j: "generate_generic_jobs self pipeline_info
      = [(''build-and-test'',
                 DMap [(''runs-on'', DStr (default_runner self)), (''steps'', DSeq ?steps)])]"
    unfolding generate_generic_jobs_def Let_def fold_stage_steps map_append stage_steps_concat
    by (simp add: checkout_step_def)
  have w: "generate_gha_workflow self pipeline_info = Inr
       [(''name'', DStr ''CI/CD Pipeline''),
          (''on'', DMap [(''push'', DMap [(''branches'', DSeq [DStr ''main'', DStr ''develop''])]),
                         (''pull_request'', DMap [(''branches'', DSeq [DStr ''main''])])]),
          (''jobs'', DMap [(''build-and-test'',
                 DMap [(''runs-on'', DStr (default_runner self)), (''steps'', DSeq ?steps)])])]"
    using g by (simp add: generate_gha_workflow_def try_bind_def j dict_update_def)
  have l: "length ?steps = 1 + sum_list (map (\<lambda>stage. length (commands stage)) (stages pipeline_info))"
    by (simp add: stage_steps_length)
  show "\<exists>workflow steps. generate_gha_workflow self pipeline_info = Inr workflow
        \<and> map_of workflow ''jobs''
            = Some (DMap [(''build-and-test'',
                 DMap [(''runs-on'', DStr (default_runner self)), (''steps'', DSeq steps)])])
        \<and> steps = DMap [(''name'', DStr ''Checkout code''), (''uses'', DStr ''actions/checkout@v4'')]
                    # concat (map stage_steps (stages pipeline_info))
        \<and> length steps = 1 + sum_list (map (\<lambda>stage. length (commands stage)) (stages pipeline_info))
        \<and> (stages pipeline_info = [] \<longrightarrow>
              steps = [DMap [(''name'', DStr ''Checkout code''), (''uses'', DStr ''actions/checkout@v4'')]])"
    using w l by simp
qed

theorem generic_workflow_steps_witness:
  "\<exists>workflow. generate_gha_workflow default_converter generic_pipeline = Inr workflow
     \<and> map_of workflow ''jobs''
         = Some (DMap [(''build-and-test'',
              DMap [(''runs-on'', DStr ''ubuntu-latest''),
                    (''steps'', DSeq
                       [DMap [(''name'', DStr ''Checkout code''), (''uses'', DStr ''actions/checkout@v4'')],
                        DMap [(''name'', DStr ''Run Build''), (''run'', DStr ''make'')],
                        DMap [(''name'', DStr ''Run Build''), (''run'', DStr ''make install'')],
                        DMap [(''name'', DStr ''Run Test''), (''run'', DStr ''make'')]])])])"
proof -
  have g: "project_type generic_pipeline \<noteq> Maven" by (simp add: generic_pipeline_def)
  have s: "concat (map stage_steps (stages generic_pipeline))
     = [DMap [(''name'', DStr ''Run Build''), (''run'', DStr ''make'')],
        DMap [(''name'', DStr ''Run Build''), (''run'', DStr ''make install'')],
        DMap [(''name'', DStr ''Run Test''), (''run'', DStr ''make'')]]"
    by (simp add: generic_pipeline_def stage_steps_def)
  have r: "default_runner default_converter = ''ubuntu-latest''"
    by (simp add: default_converter_def)
  from generic_workflow_steps [of generic_pipeline default_converter] g
  show ?thesis unfolding s r by blast
qed

section \<open>Properties of the pipeline text parser\<close>




lemma parse_result:
  "parse_jenkinsfile self exists content jenkinsfile =
     (case detect_project self exists (butlast jenkinsfile) of
        Inl e \<Rightarrow> Inl e
      | Inr (kind, working_dir) \<Rightarrow>
          Inr \<lparr>stages = map (\<lambda>stage. \<lparr>name = stage, type = classify_stage (lower stage),
                                          commands = extract_stage_commands content stage\<rparr>)
                              (findall_stage content),
               tools = (if contains (lower content) ''jdk'' \<or> contains (lower content) ''java''
                        then [''java''] else []),
               triggers = [], project_type = kind, working_directory = working_dir\<rparr>)"
  by (simp add: parse_jenkinsfile_def try_bind_def split: sum.splits prod.splits)

lemma parse_stages:
  "parse_jenkinsfile self exists content jenkinsfile = Inr m \<Longrightarrow>
     stages m = map (\<lambda>stage. \<lparr>name = stage, type = classify_stage (lower stage),
                              commands = extract_stage_commands content stage\<rparr>)
                  (findall_stage content)"
  by (auto simp: parse_result split: sum.splits prod.splits)




lemma match_stage_named_Nil: "match_stage_named stage_name [] = None"
  by (simp add: match_stage_named_def)

lemma search_stage_block_skip:
  "(\<forall>i < length pre. match_stage_block stage_name (drop i (pre @ t)) = None) \<Longrightarrow>
     search_stage_block stage_name (pre @ t) = search_stage_block stage_name t"
proof (induction pre)
  case Nil
  show ?case by simp
next
  case (Cons c pre)
  have "match_stage_block stage_name (drop 0 ((c # pre) @ t)) = None"
    using Cons.prems by (metis length_greater_0_conv list.distinct(1))
  then have m: "match_stage_block stage_name (c # pre @ t) = None" by simp
  have "\<forall>i < length pre. match_stage_block stage_name (drop i (pre @ t)) = None"
  proof (intro allI impI)
    fix i assume "i < length pre"
    then have "match_stage_block stage_name (drop (Suc i) ((c # pre) @ t)) = None"
      using Cons.prems by (metis Suc_less_eq length_Cons)
    then show "match_stage_block stage_name (drop i (pre @ t)) = None" by simp
  qed
  then have "search_stage_block stage_name (pre @ t) = search_stage_block stage_name t"
    by (rule Cons.IH)
  then show ?case using m by simp
qed

lemma search_stage_block_hit:
  "match_stage_block stage_name t = Some matched \<Longrightarrow>
     search_stage_block stage_name t = Some matched"
  by (cases t) (simp_all add: match_stage_block_def match_stage_named_Nil)

lemma search_stage_block_none:
  "(\<forall>i \<le> length s. match_stage_block stage_name (drop i s) = None) \<Longrightarrow>
     search_stage_block stage_name s = None"
proof (induction s)
  case Nil
  show ?case by simp
next
  case (Cons c cs)
  have "match_stage_block stage_name (drop 0 (c # cs)) = None" using Cons.prems by blast
  then have m: "match_stage_block stage_name (c # cs) = None" by simp
  have "\<forall>i \<le> length cs. match_stage_block stage_name (drop i cs) = None"
  proof (intro allI impI)
    fix i assume "i \<le> length cs"
    then have "match_stage_block stage_name (drop (Suc i) (c # cs)) = None"
      using Cons.prems by auto
    then show "match_stage_block stage_name (drop i cs) = None" by simp
  qed
  then have "search_stage_block stage_name cs = None" by (rule Cons.IH)
  then show ?case using m by simp
qed

lemma extract_from_first_block:
  assumes "content = pre @ t"
    and "\<forall>i < length pre. match_stage_block stage_name (drop i content) = None"
    and "match_stage_named stage_name t = Some r"
    and "find_close r = Some rest"
  shows "extract_stage_commands content stage_name = findall_sh (take (length t - length rest) t)"
proof -
  have "match_stage_block stage_name t = Some (take (length t - length rest) t)"
    using assms(3,4) by (simp add: match_stage_block_def)
  then have "search_stage_block stage_name t = Some (take (length t - length rest) t)"
    by (rule search_stage_block_hit)
  moreover have "search_stage_block stage_name (pre @ t) = search_stage_block stage_name t"
    using assms(2) unfolding assms(1) by (rule search_stage_block_skip)
  ultimately show ?thesis unfolding assms(1) by (simp add: extract_stage_commands_def)
qed

lemma extract_without_block:
  "(\<forall>i \<le> length content. match_stage_block stage_name (drop i content) = None) \<Longrightarrow>
     extract_stage_commands content stage_name = []"
  by (simp add: extract_stage_commands_def search_stage_block_none)

text \<open>
  Claim C9, as the code has it. The entries of a parsed model carry the declared names in
  textual order, and two entries with the same name carry the same commands. The commands
  of an entry are the shell commands found in the text matched by the leftmost match of the
  block pattern for its name: the match begins at the first position where a declaration
  of that name, letter case ignored, is followed somewhere by a closing pair of braces,
  and it ends with the first such pair. When the block pattern matches nowhere the entry
  has no command.
\<close>

theorem duplicate_stage_commands:
  "parse_jenkinsfile self exists content jenkinsfile = Inr m \<longrightarrow>
     map name (stages m) = findall_stage content
     \<and> (\<forall>e1 \<in> set (stages m). \<forall>e2 \<in> set (stages m).
          name e1 = name e2 \<longrightarrow> commands e1 = commands e2)
     \<and> (\<forall>e \<in> set (stages m). \<forall>pre t r rest.
          content = pre @ t
          \<and> (\<forall>i < length pre. match_stage_block (name e) (drop i content) = None)
          \<and> match_stage_named (name e) t = Some r \<and> find_close r = Some rest
          \<longrightarrow> commands e = findall_sh (take (length t - length rest) t))
     \<and> (\<forall>e \<in> set (stages m).
          (\<forall>i \<le> length content. match_stage_block (name e) (drop i content) = None)
          \<longrightarrow> commands e = [])"
proof
  assume p: "parse_jenkinsfile self exists content jenkinsfile = Inr m"
  note s = parse_stages [OF p]
  have c: "commands e = extract_stage_commands content (name e)" if "e \<in> set (stages m)" for e
    using that unfolding s by auto
  have a: "map name (stages m) = findall_stage content"
    unfolding s by (simp add: comp_def)
  have b: "\<forall>e1 \<in> set (stages m). \<forall>e2 \<in> set (stages m).
          name e1 = name e2 \<longrightarrow> commands e1 = commands e2"
    using c by simp
  have d: "\<forall>e \<in> set (stages m). \<forall>pre t r rest.
          content = pre @ t
          \<and> (\<forall>i < length pre. match_stage_block (name e) (drop i content) = None)
          \<and> match_stage_named (name e) t = Some r \<and> find_close r = Some rest
          \<longrightarrow> commands e = findall_sh (take (length t - length rest) t)"
    using c extract_from_first_block by metis
  have e: "\<forall>e \<in> set (stages m).
          (\<forall>i \<le> length content. match_stage_block (name e) (drop i content) = None)
          \<longrightarrow> commands e = []"
    using c extract_without_block by metis
  from a b d e show "map name (stages m) = findall_stage content
     \<and> (\<forall>e1 \<in> set (stages m). \<forall>e2 \<in> set (stages m).
          name e1 = name e2 \<longrightarrow> commands e1 = commands e2)
     \<and> (\<forall>e \<in> set (stages m). \<forall>pre t r rest.
          content = pre @ t
          \<and> (\<forall>i < length pre. match_stage_block (name e) (drop i content) = None)
          \<and> match_stage_named (name e) t = Some r \<and> find_close r = Some rest
          \<longrightarrow> commands e = findall_sh (take (length t - length rest) t))
     \<and> (\<forall>e \<in> set (stages m).
          (\<forall>i \<le> length content. match_stage_block (name e) (drop i content) = None)
          \<longrightarrow> commands e = [])" by blast
qed

lemma three_stages_parsed:
  "parse_jenkinsfile default_converter (\<lambda>p. Inr False) three_stages [''jenkins-repo'', ''Jenkinsfile'']
     = Inr \<lparr>stages = [\<lparr>name = ''A'', type = Build, commands = [''x'']\<rparr>,
                       \<lparr>name = ''a'', type = Build, commands = [''x'']\<rparr>,
                       \<lparr>name = ''a'', type = Build, commands = [''x'']\<rparr>],
            tools = [], triggers = [], project_type = Generic, working_directory = None\<rparr>"
  unfolding three_stages_def by code_simp

theorem duplicate_stage_commands_witness:
  "\<exists>m. parse_jenkinsfile default_converter (\<lambda>p. Inr False) three_stages
           [''jenkins-repo'', ''Jenkinsfile''] = Inr m
       \<and> map name (stages m) = [''A'', ''a'', ''a'']
       \<and> map commands (stages m) = [[''x''], [''x''], [''x'']]
       \<and> match_stage_named ''a'' three_stages = Some (drop 10 three_stages)
       \<and> find_close (drop 10 three_stages) = Some (drop 31 three_stages)
       \<and> findall_sh (take 31 three_stages) = [''x'']"
proof -
  let ?e = "\<lparr>name = ''a'', type = Build, commands = [''x'']\<rparr>"
  let ?m = "\<lparr>stages = [\<lparr>name = ''A'', type = Build, commands = [''x'']\<rparr>, ?e, ?e],
            tools = [], triggers = [], project_type = Generic, working_directory = None\<rparr>"
  have h: "match_stage_named ''a'' three_stages = Some (drop 10 three_stages)"
    unfolding three_stages_def by code_simp
  have c: "find_close (drop 10 three_stages) = Some (drop 31 three_stages)"
    unfolding three_stages_def by code_simp
  have l: "length three_stages - length (drop 31 three_stages) = 31"
    by (simp add: three_stages_def)
  from duplicate_stage_commands [of default_converter "\<lambda>p. Inr False" three_stages
      "[''jenkins-repo'', ''Jenkinsfile'']" ?m] three_stages_parsed
  have f: "\<forall>e \<in> set (stages ?m). \<forall>pre t r rest.
          three_stages = pre @ t
          \<and> (\<forall>i < length pre. match_stage_block (name e) (drop i three_stages) = None)
          \<and> match_stage_named (name e) t = Some r \<and> find_close r = Some rest
          \<longrightarrow> commands e = findall_sh (take (length t - length rest) t)"
    by blast
  have "commands ?e
      = findall_sh (take (length three_stages - length (drop 31 three_stages)) three_stages)"
  proof (rule f [rule_format, of ?e "[]" three_stages "drop 10 three_stages" "drop 31 three_stages"])
    show "?e \<in> set (stages ?m)" by simp
    show "three_stages = [] @ three_stages
      \<and> (\<forall>i < length []. match_stage_block (name ?e) (drop i three_stages) = None)
      \<and> match_stage_named (name ?e) three_stages = Some (drop 10 three_stages)
      \<and> find_close (drop 10 three_stages) = Some (drop 31 three_stages)"
      using h c by simp
  qed
  then have "findall_sh (take 31 three_stages) = [''x'']" unfolding l by simp
  then show ?thesis using three_stages_parsed h c by simp
qed

text \<open>
  Claim C9 as stated takes the commands of an entry from the span that begins at the first
  declaration of its own name. In the text above the entries named \<open>a\<close> receive the
  command \<open>x\<close>, from the block of the stage \<open>A\<close>; the first declaration of \<open>a\<close> is at
  offset 32, only \<open>A\<close> is declared before it, and the span beginning there holds the
  command \<open>y\<close>.
\<close>

theorem first_declaration_counterexample:
  "(\<exists>m. parse_jenkinsfile default_converter (\<lambda>p. Inr False) three_stages
           [''jenkins-repo'', ''Jenkinsfile''] = Inr m
        \<and> map name (stages m) = [''A'', ''a'', ''a'']
        \<and> map commands (stages m) = [[''x''], [''x''], [''x'']])
   \<and> findall_stage (take 32 three_stages) = [''A'']
   \<and> map_option fst (match_stage (drop 32 three_stages)) = Some ''a''
   \<and> extract_stage_commands (drop 32 three_stages) ''a'' = [''y'']"
proof -
  have a: "findall_stage (take 32 three_stages) = [''A'']"
    unfolding three_stages_def by code_simp
  have b: "map_option fst (match_stage (drop 32 three_stages)) = Some ''a''"
    unfolding three_stages_def by code_simp
  have c: "extract_stage_commands (drop 32 three_stages) ''a'' = [''y'']"
    unfolding three_stages_def by code_simp
  show ?thesis using a b c three_stages_parsed by simp
qed

section \<open>Properties of the tree migration\<close>


lemma get_append:
  "get fs (p @ q) = (case get fs p of None \<Rightarrow> None | Some x \<Rightarrow> get x q)"
  by (induction p arbitrary: fs) (auto split: node.splits option.splits)







lemma grows_present: "grows a b \<Longrightarrow> get a p \<noteq> None \<Longrightarrow> get b p \<noteq> None"
  unfolding grows_def by (erule allE [of _ p]) (auto split: node.splits)

lemma grows_get:
  assumes "grows a b" and "get a p = Some x"
  shows "\<exists>y. get b p = Some y \<and> grows x y"
proof -
  from assms grows_present [of a b p] obtain y where y: "get b p = Some y" by auto
  have "grows x y"
    unfolding grows_def
  proof
    fix q
    from assms(1) have "case get a (p @ q) of None \<Rightarrow> True
        | Some (File data) \<Rightarrow> get b (p @ q) = Some (File data)
        | Some (Dir entries) \<Rightarrow> \<exists>entries'. get b (p @ q) = Some (Dir entries')
        | Some (Link target) \<Rightarrow> get b (p @ q) = Some (Link target)"
      unfolding grows_def by blast
    then show "case get x q of None \<Rightarrow> True
        | Some (File data) \<Rightarrow> get y q = Some (File data)
        | Some (Dir entries) \<Rightarrow> \<exists>entries'. get y q = Some (Dir entries')
        | Some (Link target) \<Rightarrow> get y q = Some (Link target)"
      using assms(2) y by (auto simp: get_append split: option.splits node.splits)
  qed
  with y show ?thesis by blast
qed


















































end
